theory Spec2Isabelle
  imports Main
begin

section \<open>Rackspace cloud wrapper (cloud\_browser/cloud/rackspace.py)\<close>

subsection \<open>Constants\<close>

text \<open>Modelled from the spec: \<open>SEP\<close> is imported from \<open>cloud_browser.common\<close>, which is
  not part of the sources at hand; the specification fixes the path separator as the
  single string \<open>/\<close>.\<close>

definition SEP :: string where
  "SEP = ''/''"

text \<open>\<open>RS_MAX_GET_OBJS_LIMIT = 10000\<close> (line 14).\<close>

definition RS_MAX_GET_OBJS_LIMIT :: int where
  "RS_MAX_GET_OBJS_LIMIT = 10000"

subsection \<open>Python string and list primitives used by the module\<close>

text \<open>\<open>s.strip(chars)\<close>: leading and trailing characters that occur in \<open>chars\<close> are
  removed.\<close>

definition strip :: "string \<Rightarrow> string \<Rightarrow> string" where
  "strip chars s =
     rev (dropWhile (\<lambda>c. c \<in> set chars) (rev (dropWhile (\<lambda>c. c \<in> set chars) s)))"

text \<open>\<open>s.partition(sep)[0]\<close> for a one-character separator: the part of \<open>s\<close> before the
  first occurrence of the separator, all of \<open>s\<close> when it does not occur.\<close>

definition partition_head :: "char \<Rightarrow> string \<Rightarrow> string" where
  "partition_head sep s = takeWhile (\<lambda>c. c \<noteq> sep) s"

text \<open>\<open>xs[:n]\<close>: a negative bound counts from the end of the list.\<close>

definition slice_to :: "'a list \<Rightarrow> int \<Rightarrow> 'a list" where
  "slice_to xs n =
     (if 0 \<le> n then take (nat n) xs else take (length xs - nat (- n)) xs)"

text \<open>Truth value of an optional string: \<open>None\<close> and the empty string are false.\<close>

definition truthy :: "string option \<Rightarrow> bool" where
  "truthy v = (case v of None \<Rightarrow> False | Some s \<Rightarrow> s \<noteq> [])"

subsection \<open>Exceptions and their translation\<close>

text \<open>The classes of \<open>cloudfiles.errors\<close> that the module names, and one constructor for
  every other class of the vendor library.\<close>

datatype vendor_class = NoSuchContainer | NoSuchObject | OtherVendorError

datatype cloud_class = CloudException | NoContainerException | NoObjectException

datatype exn =
    Vendor vendor_class string
  | Cloud cloud_class string
  | KeyError string
  | ValueError

text \<open>\<open>RackspaceExceptionWrapper.translations\<close> (lines 19--22); the name is prefixed because
  \<open>translations\<close> is reserved.\<close>

definition rs_translations :: "(vendor_class \<times> cloud_class) list" where
  "rs_translations =
     [(NoSuchContainer, NoContainerException),
      (NoSuchObject, NoObjectException)]"

text \<open>Modelled from the spec: the decorator of \<open>errors.CloudExceptionWrapper\<close> is defined in
  \<open>cloud_browser.cloud.errors\<close>, which is not part of the sources at hand. Following
  the specification (4.1), a vendor exception whose class is in the table is re-raised
  as the mapped common class, any other vendor exception as a generic \<open>CloudException\<close>
  carrying the original message; nothing else is touched.\<close>

definition translate :: "exn \<Rightarrow> exn" where
  "translate e =
     (case e of
        Vendor c msg \<Rightarrow>
          (case map_of rs_translations c of
             Some k \<Rightarrow> Cloud k msg
           | None \<Rightarrow> Cloud CloudException msg)
      | _ \<Rightarrow> e)"

definition wrap_rs_errors :: "exn + 'a \<Rightarrow> exn + 'a" where
  "wrap_rs_errors r = (case r of Inl e \<Rightarrow> Inl (translate e) | Inr v \<Rightarrow> Inr v)"

subsection \<open>Data\<close>

text \<open>One entry of the vendor's listing (a dict), restricted to the five keys the module
  reads; a field is \<open>None\<close> when the key is absent.\<close>

record info =
  i_name :: "string option"
  i_subdir :: "string option"
  i_bytes :: "int option"
  i_content_type :: "string option"
  i_last_modified :: "string option"

text \<open>A fully fetched vendor object, with the attributes \<open>from_obj\<close> reads.\<close>

record file_obj =
  f_name :: string
  f_size :: int
  f_content_type :: string
  f_last_modified :: string

record datetime =
  year :: int
  month :: int
  day :: int
  hour :: int
  minute :: int
  second :: int

datatype obj_type = FILE | SUBDIR

record container =
  c_name :: string
  c_count :: int
  c_bytes :: int

text \<open>Modelled from the spec: the constructor of \<open>base.CloudObject\<close> is not part of the
  sources at hand. An object is the record of the constructor's arguments (specification,
  section 3); an optional field is \<open>None\<close> when the call does not pass the argument.\<close>

record cloud_object =
  o_container :: container
  o_name :: string
  o_size :: "int option"
  o_content_type :: "string option"
  o_last_modified :: "datetime option"
  o_type :: obj_type

subsection \<open>\<open>datetime.strptime\<close> for the two formats of the module\<close>

text \<open>The standard library compiles a format into a regular expression, matched
  case-insensitively at the start of the input: a directive becomes a group of ordered
  alternatives, a run of white space in the format becomes \<open>\s+\<close>, every other
  character stands for itself. The first match in backtracking order is taken, the whole
  input must be consumed by it, and the fields found must form a valid date and time;
  every failure is a \<open>ValueError\<close>. Weekday and month names are those of the C locale.\<close>

datatype directive =
    Lit char
  | Spaces
  | PctY | Pctm | Pctd | PctH | PctM | PctS
  | Pcta | Pctb

definition lower :: "char \<Rightarrow> char" where
  "lower c =
     (let n = (of_char c :: nat) in if 65 \<le> n \<and> n \<le> 90 then char_of (n + 32) else c)"

definition is_space :: "char \<Rightarrow> bool" where
  "is_space c = (of_char c \<in> {9, 10, 11, 12, 13, 32 :: nat})"

definition digit :: string where
  "digit = ''0123456789''"

definition digit19 :: string where
  "digit19 = ''123456789''"

text \<open>An alternative is a sequence of character classes, each given by its members.\<close>

fun match_seq :: "string list \<Rightarrow> string \<Rightarrow> (string \<times> string) option" where
  "match_seq [] s = Some ([], s)"
| "match_seq (cls # rest) [] = None"
| "match_seq (cls # rest) (c # cs) =
     (if lower c \<in> set cls
      then (case match_seq rest cs of
              None \<Rightarrow> None
            | Some (found, s') \<Rightarrow> Some (c # found, s'))
      else None)"

definition word_alt :: "string \<Rightarrow> string list" where
  "word_alt w = map (\<lambda>c. [c]) w"

definition a_weekday :: "string list" where
  "a_weekday = [''mon'', ''tue'', ''wed'', ''thu'', ''fri'', ''sat'', ''sun'']"

definition a_month :: "string list" where
  "a_month = ['''', ''jan'', ''feb'', ''mar'', ''apr'', ''may'', ''jun'',
              ''jul'', ''aug'', ''sep'', ''oct'', ''nov'', ''dec'']"

text \<open>The groups of \<open>_strptime.TimeRE\<close>, alternatives in the order of the pattern.\<close>

fun alternatives :: "directive \<Rightarrow> string list list" where
  "alternatives PctY = [[digit, digit, digit, digit]]"
| "alternatives Pctm = [[''1'', ''012''], [''0'', digit19], [digit19]]"
| "alternatives Pctd =
     [[''3'', ''01''], [''12'', digit], [''0'', digit19], [digit19], ['' '', digit19]]"
| "alternatives PctH = [[''2'', ''0123''], [''01'', digit], [digit]]"
| "alternatives PctM = [[''012345'', digit], [digit]]"
| "alternatives PctS = [[''6'', ''01''], [''012345'', digit], [digit]]"
| "alternatives Pcta = map word_alt a_weekday"
| "alternatives Pctb = map word_alt (tl a_month)"
| "alternatives (Lit c) = [[[lower c]]]"
| "alternatives Spaces = []"

text \<open>\<open>int(s)\<close> on a string of digits, surrounding blanks ignored.\<close>

definition int_of_digits :: "string \<Rightarrow> int" where
  "int_of_digits s =
     foldl (\<lambda>acc c. 10 * acc + (int (of_char c) - 48)) 0 (filter (\<lambda>c. \<not> is_space c) s)"

definition index_of :: "'a list \<Rightarrow> 'a \<Rightarrow> int" where
  "index_of xs x = int (length (takeWhile (\<lambda>y. y \<noteq> x) xs))"

fun store :: "directive \<Rightarrow> string \<Rightarrow> datetime \<Rightarrow> datetime" where
  "store PctY s t = t\<lparr>year := int_of_digits s\<rparr>"
| "store Pctm s t = t\<lparr>month := int_of_digits s\<rparr>"
| "store Pctd s t = t\<lparr>day := int_of_digits s\<rparr>"
| "store PctH s t = t\<lparr>hour := int_of_digits s\<rparr>"
| "store PctM s t = t\<lparr>minute := int_of_digits s\<rparr>"
| "store PctS s t = t\<lparr>second := int_of_digits s\<rparr>"
| "store Pctb s t = t\<lparr>month := index_of a_month (map lower s)\<rparr>"
| "store d s t = t"

text \<open>All ways one directive matches a prefix of the input, the preferred one first;
  \<open>\s+\<close> is greedy.\<close>

definition step :: "directive \<Rightarrow> datetime \<Rightarrow> string \<Rightarrow> (datetime \<times> string) list" where
  "step d t s =
     (case d of
        Spaces \<Rightarrow>
          map (\<lambda>k. (t, drop k s)) (rev [1 ..< Suc (length (takeWhile is_space s))])
      | _ \<Rightarrow>
          List.map_filter
            (\<lambda>alt. case match_seq alt s of
                     None \<Rightarrow> None
                   | Some (found, s') \<Rightarrow> Some (store d found t, s'))
            (alternatives d))"

fun matches :: "directive list \<Rightarrow> datetime \<Rightarrow> string \<Rightarrow> (datetime \<times> string) list" where
  "matches [] t s = [(t, s)]"
| "matches (d # ds) t s = concat (map (\<lambda>(t', s'). matches ds t' s') (step d t s))"

definition is_leap :: "int \<Rightarrow> bool" where
  "is_leap y = (y mod 4 = 0 \<and> (y mod 100 \<noteq> 0 \<or> y mod 400 = 0))"

definition days_in_month :: "int \<Rightarrow> int \<Rightarrow> int" where
  "days_in_month y m =
     (if m = 2 then (if is_leap y then 29 else 28)
      else if m \<in> {4, 6, 9, 11} then 30 else 31)"

definition valid_datetime :: "datetime \<Rightarrow> bool" where
  "valid_datetime t =
     (1 \<le> year t \<and> year t \<le> 9999 \<and> 1 \<le> month t \<and> month t \<le> 12 \<and>
      1 \<le> day t \<and> day t \<le> days_in_month (year t) (month t) \<and>
      0 \<le> hour t \<and> hour t \<le> 23 \<and> 0 \<le> minute t \<and> minute t \<le> 59 \<and>
      0 \<le> second t \<and> second t \<le> 59)"

definition strptime :: "string \<Rightarrow> directive list \<Rightarrow> exn + datetime" where
  "strptime s fmt =
     (case matches fmt
             \<lparr>year = 1900, month = 1, day = 1, hour = 0, minute = 0, second = 0\<rparr> s of
        [] \<Rightarrow> Inl ValueError
      | (t, s') # _ \<Rightarrow>
          if s' \<noteq> [] then Inl ValueError
          else if valid_datetime t then Inr t
          else Inl ValueError)"

text \<open>\<open>"%Y-%m-%dT%H:%M:%S"\<close> (line 64).\<close>

definition file_info_format :: "directive list" where
  "file_info_format =
     [PctY, Lit CHR ''-'', Pctm, Lit CHR ''-'', Pctd, Lit CHR ''T'',
      PctH, Lit CHR '':'', PctM, Lit CHR '':'', PctS]"

text \<open>\<open>"%a, %d %b %Y %H:%M:%S GMT"\<close> (line 77).\<close>

definition obj_format :: "directive list" where
  "obj_format =
     [Pcta, Lit CHR '','', Spaces, Pctd, Spaces, Pctb, Spaces, PctY, Spaces,
      PctH, Lit CHR '':'', PctM, Lit CHR '':'', PctS, Spaces,
      Lit CHR ''G'', Lit CHR ''M'', Lit CHR ''T'']"

subsection \<open>\<open>RackspaceObject\<close>\<close>

text \<open>\<open>d[key]\<close>: a missing key raises \<open>KeyError\<close>.\<close>

definition item :: "string \<Rightarrow> 'a option \<Rightarrow> exn + 'a" where
  "item key v = (case v of None \<Rightarrow> Inl (KeyError key) | Some x \<Rightarrow> Inr x)"

text \<open>\<open>from_subdir\<close> (lines 46--51).\<close>

definition from_subdir :: "container \<Rightarrow> info \<Rightarrow> exn + cloud_object" where
  "from_subdir cont info_obj =
     (case item ''subdir'' (i_subdir info_obj) of
        Inl e \<Rightarrow> Inl e
      | Inr sub \<Rightarrow>
          Inr \<lparr>o_container = cont, o_name = sub, o_size = None, o_content_type = None,
               o_last_modified = None, o_type = SUBDIR\<rparr>)"

text \<open>\<open>choose_type\<close> (lines 53--57).\<close>

definition choose_type :: "string \<Rightarrow> obj_type" where
  "choose_type content_type =
     (if content_type = ''application/directory'' then SUBDIR else FILE)"

text \<open>\<open>from_file_info\<close> (lines 59--70): the timestamp is read and parsed first, then the
  constructor's arguments are evaluated from left to right.\<close>

definition from_file_info :: "container \<Rightarrow> info \<Rightarrow> exn + cloud_object" where
  "from_file_info cont info_obj =
     (case item ''last_modified'' (i_last_modified info_obj) of
        Inl e \<Rightarrow> Inl e
      | Inr lm \<Rightarrow>
     (case strptime (partition_head CHR ''.'' lm) file_info_format of
        Inl e \<Rightarrow> Inl e
      | Inr last_modified \<Rightarrow>
     (case item ''name'' (i_name info_obj) of
        Inl e \<Rightarrow> Inl e
      | Inr name \<Rightarrow>
     (case item ''bytes'' (i_bytes info_obj) of
        Inl e \<Rightarrow> Inl e
      | Inr sz \<Rightarrow>
     (case item ''content_type'' (i_content_type info_obj) of
        Inl e \<Rightarrow> Inl e
      | Inr content_type \<Rightarrow>
          Inr \<lparr>o_container = cont, o_name = name, o_size = Some sz,
               o_content_type = Some content_type,
               o_last_modified = Some last_modified,
               o_type = choose_type content_type\<rparr>)))))"

text \<open>\<open>from_info\<close> (lines 39--44).\<close>

definition from_info :: "container \<Rightarrow> info \<Rightarrow> exn + cloud_object" where
  "from_info cont info_obj =
     (if i_subdir info_obj \<noteq> None then from_subdir cont info_obj
      else from_file_info cont info_obj)"

text \<open>\<open>from_obj\<close> (lines 72--83).\<close>

definition from_obj :: "container \<Rightarrow> file_obj \<Rightarrow> exn + cloud_object" where
  "from_obj cont fobj =
     (case strptime (f_last_modified fobj) obj_format of
        Inl e \<Rightarrow> Inl e
      | Inr last_modified \<Rightarrow>
          Inr \<lparr>o_container = cont, o_name = f_name fobj, o_size = Some (f_size fobj),
               o_content_type = Some (f_content_type fobj),
               o_last_modified = Some last_modified,
               o_type = choose_type (f_content_type fobj)\<rparr>)"

subsection \<open>\<open>RackspaceContainer\<close>\<close>

text \<open>The keyword arguments of one call of the vendor's \<open>list_objects_info\<close>.\<close>

record list_request =
  rq_limit :: int
  rq_delimiter :: string
  rq_prefix :: string
  rq_marker :: "string option"

text \<open>\<open>_collapse\<close> (lines 145--152); the first argument is the loop variable \<open>name\<close>.\<close>

fun collapse_from :: "string option \<Rightarrow> info list \<Rightarrow> info list" where
  "collapse_from name [] = []"
| "collapse_from name (info # infos) =
     (let name' = (case i_name info of Some n \<Rightarrow> Some n | None \<Rightarrow> name);
          subdir = strip SEP (case i_subdir info of Some s \<Rightarrow> s | None \<Rightarrow> [])
      in (if \<not> truthy name' \<or> Some subdir \<noteq> name' then [info] else [])
         @ collapse_from name' infos)"

definition collapse :: "info list \<Rightarrow> info list" where
  "collapse infos = collapse_from None infos"

text \<open>The value of the loop variable \<open>name\<close> of \<open>_collapse\<close> after the entries given,
  from its value before them.\<close>

fun name_after :: "string option \<Rightarrow> info list \<Rightarrow> string option" where
  "name_after name [] = name"
| "name_after name (info # infos) =
     name_after (case i_name info of Some n \<Rightarrow> Some n | None \<Rightarrow> name) infos"

text \<open>The list comprehension of line 166: the first exception ends it.\<close>

fun collect :: "('a \<Rightarrow> exn + 'b) \<Rightarrow> 'a list \<Rightarrow> exn + 'b list" where
  "collect f [] = Inr []"
| "collect f (x # xs) =
     (case f x of
        Inl e \<Rightarrow> Inl e
      | Inr y \<Rightarrow> (case collect f xs of Inl e \<Rightarrow> Inl e | Inr ys \<Rightarrow> Inr (y # ys)))"

text \<open>Lines 154--164: what becomes of the vendor's page before the objects are built.\<close>

definition adjust :: "string option \<Rightarrow> int \<Rightarrow> info list \<Rightarrow> info list" where
  "adjust marker orig_limit object_infos =
     (case object_infos of
        [] \<Rightarrow> []
      | first # rest \<Rightarrow>
          slice_to
            (collapse
               (if truthy marker \<and>
                   Some (strip SEP (case i_subdir first of Some s \<Rightarrow> s | None \<Rightarrow> [])) = marker
                then rest else object_infos))
            orig_limit)"

text \<open>The body of \<open>get_objects\<close> (lines 96--166). The vendor's \<open>list_objects_info\<close> is a
  parameter; the first component of the result is the list of the calls made to it.\<close>

definition get_objects_body ::
  "container \<Rightarrow> (list_request \<Rightarrow> exn + info list) \<Rightarrow> string \<Rightarrow> string option \<Rightarrow> int
     \<Rightarrow> list_request list \<times> (exn + cloud_object list)" where
  "get_objects_body self list_objects_info path marker limit =
     (let orig_limit = limit in
      if limit > RS_MAX_GET_OBJS_LIMIT
      then ([], Inl (Cloud CloudException ''Object limit must be less than 10000''))
      else
        let limit' = limit + 1;
            path' = (if path \<noteq> [] then path @ SEP else []);
            req = \<lparr>rq_limit = limit', rq_delimiter = SEP, rq_prefix = path',
                   rq_marker = marker\<rparr>
        in (case list_objects_info req of
              Inl e \<Rightarrow> ([req], Inl e)
            | Inr object_infos \<Rightarrow>
                ([req], collect (from_info self) (adjust marker orig_limit object_infos))))"

definition get_objects ::
  "container \<Rightarrow> (list_request \<Rightarrow> exn + info list) \<Rightarrow> string \<Rightarrow> string option \<Rightarrow> int
     \<Rightarrow> list_request list \<times> (exn + cloud_object list)" where
  "get_objects self list_objects_info path marker limit =
     (case get_objects_body self list_objects_info path marker limit of
        (calls, r) \<Rightarrow> (calls, wrap_rs_errors r))"

text \<open>\<open>get_object\<close> (lines 168--172); the vendor's \<open>get_object\<close> is a parameter.\<close>

definition get_object ::
  "container \<Rightarrow> (string \<Rightarrow> exn + file_obj) \<Rightarrow> string \<Rightarrow> exn + cloud_object" where
  "get_object self native_get_object path =
     wrap_rs_errors
       (case native_get_object path of
          Inl e \<Rightarrow> Inl e
        | Inr obj \<Rightarrow> from_obj self obj)"

subsection \<open>\<open>RackspaceConnection\<close>\<close>

text \<open>The attributes of a vendor container that \<open>_get_container\<close> reads.\<close>

record native_container =
  n_name :: string
  n_object_count :: int
  n_size_used :: int

text \<open>\<open>RackspaceConnection._get_container\<close> (lines 206--213); the vendor's \<open>get_container\<close>
  is a parameter.\<close>

definition conn_get_container ::
  "(string \<Rightarrow> exn + native_container) \<Rightarrow> string \<Rightarrow> exn + container" where
  "conn_get_container native_get_container path =
     wrap_rs_errors
       (case native_get_container path of
          Inl e \<Rightarrow> Inl e
        | Inr cont \<Rightarrow>
            Inr \<lparr>c_name = n_name cont, c_count = n_object_count cont,
                 c_bytes = n_size_used cont\<rparr>)"

subsection \<open>The specification's reading of the collapsing rule\<close>




subsection \<open>The timestamp formats of the specification\<close>

text \<open>The strings the specification names: \<open>YYYY-MM-DDTHH:MM:SS\<close> for a listing entry and
  \<open>Www, DD Mon YYYY HH:MM:SS GMT\<close> for a fetched object, written out for an instant; the
  fields are zero-padded decimal numbers, the names of days and months are the English
  abbreviations.\<close>

definition digit_char :: "int \<Rightarrow> char" where
  "digit_char d = ''0123456789'' ! nat d"

definition two_digits :: "int \<Rightarrow> string" where
  "two_digits n = [digit_char (n div 10), digit_char (n mod 10)]"

definition four_digits :: "int \<Rightarrow> string" where
  "four_digits n = two_digits (n div 100) @ two_digits (n mod 100)"

definition iso_timestamp :: "datetime \<Rightarrow> string" where
  "iso_timestamp t =
     four_digits (year t) @ ''-'' @ two_digits (month t) @ ''-'' @ two_digits (day t) @ ''T'' @
     two_digits (hour t) @ '':'' @ two_digits (minute t) @ '':'' @ two_digits (second t)"

definition weekday_abbr :: "string list" where
  "weekday_abbr = [''Mon'', ''Tue'', ''Wed'', ''Thu'', ''Fri'', ''Sat'', ''Sun'']"

definition month_abbr :: "string list" where
  "month_abbr = [''Jan'', ''Feb'', ''Mar'', ''Apr'', ''May'', ''Jun'',
                 ''Jul'', ''Aug'', ''Sep'', ''Oct'', ''Nov'', ''Dec'']"

definition rfc1123_timestamp :: "string \<Rightarrow> datetime \<Rightarrow> string" where
  "rfc1123_timestamp wd t =
     wd @ '', '' @ two_digits (day t) @ '' '' @ month_abbr ! nat (month t - 1) @ '' '' @
     four_digits (year t) @ '' '' @
     two_digits (hour t) @ '':'' @ two_digits (minute t) @ '':'' @ two_digits (second t) @
     '' GMT''"

subsection \<open>Example data\<close>

definition subdir_entry :: "string \<Rightarrow> info" where
  "subdir_entry s =
     \<lparr>i_name = None, i_subdir = Some s, i_bytes = None, i_content_type = None,
      i_last_modified = None\<rparr>"

definition file_entry :: "string \<Rightarrow> string \<Rightarrow> int \<Rightarrow> string \<Rightarrow> info" where
  "file_entry n ct b lm =
     \<lparr>i_name = Some n, i_subdir = None, i_bytes = Some b, i_content_type = Some ct,
      i_last_modified = Some lm\<rparr>"

definition photos :: container where
  "photos = \<lparr>c_name = ''photos'', c_count = 3, c_bytes = 5\<rparr>"

text \<open>A vendor that answers every listing request with the same page.\<close>

definition fixed_listing :: "info list \<Rightarrow> list_request \<Rightarrow> exn + info list" where
  "fixed_listing page req = Inr page"

text \<open>The three entries of the specification's scenario.\<close>

definition implied_a :: info where
  "implied_a = subdir_entry ''a/''"

definition real_a :: info where
  "real_a = file_entry ''a'' ''application/directory'' 0 ''2020-01-01T00:00:00''"

definition b_txt :: info where
  "b_txt = file_entry ''b.txt'' ''text/plain'' 5 ''2020-01-01T00:00:00''"

definition midnight_2020 :: datetime where
  "midnight_2020 = \<lparr>year = 2020, month = 1, day = 1, hour = 0, minute = 0, second = 0\<rparr>"

definition object_implied_a :: cloud_object where
  "object_implied_a =
     \<lparr>o_container = photos, o_name = ''a/'', o_size = None, o_content_type = None,
      o_last_modified = None, o_type = SUBDIR\<rparr>"

definition object_real_a :: cloud_object where
  "object_real_a =
     \<lparr>o_container = photos, o_name = ''a'', o_size = Some 0,
      o_content_type = Some ''application/directory'',
      o_last_modified = Some midnight_2020, o_type = SUBDIR\<rparr>"

definition object_b_txt :: cloud_object where
  "object_b_txt =
     \<lparr>o_container = photos, o_name = ''b.txt'', o_size = Some 5,
      o_content_type = Some ''text/plain'',
      o_last_modified = Some midnight_2020, o_type = FILE\<rparr>"

text \<open>A plain file named like the directory, and another implied entry.\<close>

definition plain_a :: info where
  "plain_a = file_entry ''a'' ''text/plain'' 3 ''2020-01-01T00:00:00''"

definition implied_x :: info where
  "implied_x = subdir_entry ''x/''"

text \<open>The instants of the specification's timestamp examples.\<close>

definition apr_15_2010 :: datetime where
  "apr_15_2010 = \<lparr>year = 2010, month = 4, day = 15, hour = 1, minute = 52, second = 13\<rparr>"

definition jun_07_2007 :: datetime where
  "jun_07_2007 = \<lparr>year = 2007, month = 6, day = 7, hour = 18, minute = 57, second = 7\<rparr>"

text \<open>Vendor calls that find nothing under the path asked for.\<close>

definition missing_object :: "string \<Rightarrow> exn + file_obj" where
  "missing_object path = Inl (Vendor NoSuchObject path)"

definition missing_container :: "string \<Rightarrow> exn + native_container" where
  "missing_container path = Inl (Vendor NoSuchContainer path)"

section \<open>Properties\<close>

subsection \<open>Basic facts\<close>

lemma translate_Cloud: "translate (Cloud k msg) = Cloud k msg"
  by (simp add: translate_def)

lemma wrap_rs_errors_Inr: "wrap_rs_errors r = Inr v \<longleftrightarrow> r = Inr v"
  by (cases r) (simp_all add: wrap_rs_errors_def)

lemma collect_length: "collect f xs = Inr ys \<Longrightarrow> length ys = length xs"
  by (induction xs arbitrary: ys) (auto split: sum.splits)

lemma slice_to_length: "0 \<le> n \<Longrightarrow> int (length (slice_to xs n)) \<le> n"
  by (simp add: slice_to_def)

lemma adjust_length: "0 \<le> limit \<Longrightarrow> int (length (adjust marker limit page)) \<le> limit"
  by (cases page) (simp_all add: adjust_def slice_to_length)

lemma strptime_error: "strptime s fmt = Inl e \<Longrightarrow> e = ValueError"
  by (auto simp: strptime_def split: list.splits prod.splits if_splits)

lemma from_info_error:
  "from_info cont i = Inl e \<Longrightarrow> e = ValueError \<or> (\<exists>k. e = KeyError k)"
  by (auto simp: from_info_def from_subdir_def from_file_info_def item_def
      dest: strptime_error split: option.splits sum.splits if_splits)

lemma collect_error:
  "collect (from_info cont) xs = Inl e \<Longrightarrow> e = ValueError \<or> (\<exists>k. e = KeyError k)"
  by (induction xs) (auto dest: from_info_error split: sum.splits)

text \<open>A call whose limit passes the check makes exactly one listing request.\<close>

lemma get_objects_accepted:
  assumes "limit \<le> RS_MAX_GET_OBJS_LIMIT"
  shows "get_objects self f path marker limit =
     ([\<lparr>rq_limit = limit + 1, rq_delimiter = SEP,
        rq_prefix = (if path = [] then [] else path @ SEP), rq_marker = marker\<rparr>],
      wrap_rs_errors
        (case f \<lparr>rq_limit = limit + 1, rq_delimiter = SEP,
                 rq_prefix = (if path = [] then [] else path @ SEP), rq_marker = marker\<rparr> of
           Inl e \<Rightarrow> Inl e
         | Inr page \<Rightarrow> collect (from_info self) (adjust marker limit page)))"
  using assms
  by (simp add: get_objects_def get_objects_body_def Let_def split: sum.splits)

text \<open>A call whose limit fails the check makes no request.\<close>

lemma get_objects_rejected:
  "RS_MAX_GET_OBJS_LIMIT < limit \<Longrightarrow>
   get_objects self f path marker limit =
     ([], Inl (Cloud CloudException ''Object limit must be less than 10000''))"
  by (simp add: get_objects_def get_objects_body_def wrap_rs_errors_def translate_Cloud)

subsection \<open>The limit ceiling\<close>

text \<open>C3. For every call of \<open>get_objects\<close> with a limit above 10000 the operation fails
  with a \<open>CloudException\<close>, and the list of vendor calls is empty: the check is made
  before any request.\<close>

theorem get_objects_limit_ceiling:
  assumes "RS_MAX_GET_OBJS_LIMIT < limit"
  shows "get_objects self list_objects_info path marker limit =
           ([], Inl (Cloud CloudException ''Object limit must be less than 10000''))"
  using assms
  by (simp add: get_objects_def get_objects_body_def wrap_rs_errors_def translate_Cloud)

theorem get_objects_limit_ceiling_witness:
  "RS_MAX_GET_OBJS_LIMIT < 10001 \<and>
   get_objects photos (fixed_listing [real_a, implied_a, b_txt]) ''x'' None 10001 =
     ([], Inl (Cloud CloudException ''Object limit must be less than 10000''))"
proof -
  have h: "RS_MAX_GET_OBJS_LIMIT < 10001" by (simp add: RS_MAX_GET_OBJS_LIMIT_def)
  from get_objects_limit_ceiling [OF h] h show ?thesis by simp
qed

text \<open>C9. The ceiling is checked on the caller's limit, before the increment: every
  accepted call (limit at most 10000) makes one listing request whose limit is the
  caller's limit plus one, and when the vendor answers with a page the call raises none
  of the common exceptions. At limit 10000 the request asks for 10001 entries, one more
  than \<open>RS_MAX_GET_OBJS_LIMIT\<close> (the witness).\<close>

theorem get_objects_requests_limit_plus_one:
  assumes "limit \<le> RS_MAX_GET_OBJS_LIMIT"
  shows "map rq_limit (fst (get_objects self f path marker limit)) = [limit + 1] \<and>
         (\<forall>page. f \<lparr>rq_limit = limit + 1, rq_delimiter = SEP,
                     rq_prefix = (if path = [] then [] else path @ SEP),
                     rq_marker = marker\<rparr> = Inr page \<longrightarrow>
            (\<forall>k msg. snd (get_objects self f path marker limit) \<noteq> Inl (Cloud k msg)))"
proof -
  note eq = get_objects_accepted [OF assms, of self f path marker]
  have "map rq_limit (fst (get_objects self f path marker limit)) = [limit + 1]"
    by (simp add: eq)
  moreover have "snd (get_objects self f path marker limit) \<noteq> Inl (Cloud k msg)"
    if "f \<lparr>rq_limit = limit + 1, rq_delimiter = SEP,
           rq_prefix = (if path = [] then [] else path @ SEP),
           rq_marker = marker\<rparr> = Inr page" for page k msg
  proof
    assume "snd (get_objects self f path marker limit) = Inl (Cloud k msg)"
    with that have w: "wrap_rs_errors (collect (from_info self) (adjust marker limit page))
        = Inl (Cloud k msg)"
      by (simp add: eq)
    then obtain e where e: "collect (from_info self) (adjust marker limit page) = Inl e"
      and t: "translate e = Cloud k msg"
      by (auto simp: wrap_rs_errors_def split: sum.splits)
    from collect_error [OF e] t show False
      by (auto simp: translate_def)
  qed
  ultimately show ?thesis by blast
qed

theorem get_objects_requests_limit_plus_one_witness:
  "(10000 :: int) \<le> RS_MAX_GET_OBJS_LIMIT \<and>
   map rq_limit
     (fst (get_objects photos (fixed_listing [real_a, implied_a, b_txt]) [] None 10000))
     = [10001] \<and>
   RS_MAX_GET_OBJS_LIMIT < 10001 \<and>
   snd (get_objects photos (fixed_listing [real_a, implied_a, b_txt]) [] None 10000)
     = Inr [object_real_a, object_b_txt]"
proof -
  have h: "(10000 :: int) \<le> RS_MAX_GET_OBJS_LIMIT" by (simp add: RS_MAX_GET_OBJS_LIMIT_def)
  have r: "snd (get_objects photos (fixed_listing [real_a, implied_a, b_txt]) [] None 10000)
     = Inr [object_real_a, object_b_txt]"
    by code_simp
  from get_objects_requests_limit_plus_one
         [OF h, of photos "fixed_listing [real_a, implied_a, b_txt]" "[]" None]
  have "map rq_limit
          (fst (get_objects photos (fixed_listing [real_a, implied_a, b_txt]) [] None 10000))
        = [10001]"
    by simp
  with h r show ?thesis by (simp add: RS_MAX_GET_OBJS_LIMIT_def)
qed

subsection \<open>The prefix of the listing request\<close>

text \<open>C8, as the specification states it, fails: a prefix that already ends with the
  separator is passed on with two trailing separators.\<close>

theorem get_objects_prefix_double_separator:
  "map rq_prefix (fst (get_objects photos (fixed_listing []) ''foo/'' None 10)) = [''foo//'']"
  by code_simp

text \<open>C8, amended. For every accepted call, the prefix of the listing request is the
  empty string when the path is empty, and otherwise the path with one separator
  appended, whatever the path ends with.\<close>

theorem get_objects_prefix_appended:
  assumes "limit \<le> RS_MAX_GET_OBJS_LIMIT"
  shows "map rq_prefix (fst (get_objects self f path marker limit)) =
           [if path = [] then [] else path @ ''/'']"
  by (simp add: get_objects_accepted [OF assms] SEP_def)

theorem get_objects_prefix_appended_witness:
  "(10 :: int) \<le> RS_MAX_GET_OBJS_LIMIT \<and>
   map rq_prefix (fst (get_objects photos (fixed_listing []) ''foo'' None 10)) = [''foo/''] \<and>
   map rq_prefix (fst (get_objects photos (fixed_listing []) [] None 10)) = [[]]"
proof -
  have h: "(10 :: int) \<le> RS_MAX_GET_OBJS_LIMIT" by (simp add: RS_MAX_GET_OBJS_LIMIT_def)
  from get_objects_prefix_appended [OF h, of photos "fixed_listing []" "''foo''" None]
       get_objects_prefix_appended [OF h, of photos "fixed_listing []" "[]" None] h
  show ?thesis by simp
qed

subsection \<open>The size of the returned page\<close>

text \<open>C4. For every path, marker and limit that is not negative, and every behaviour of
  the vendor, a sequence returned by \<open>get_objects\<close> has at most \<open>limit\<close> elements.\<close>

theorem get_objects_page_size:
  assumes "0 \<le> limit"
    and "snd (get_objects self f path marker limit) = Inr objs"
  shows "int (length objs) \<le> limit"
proof (cases "limit \<le> RS_MAX_GET_OBJS_LIMIT")
  case False
  then have "snd (get_objects self f path marker limit) =
      Inl (Cloud CloudException ''Object limit must be less than 10000'')"
    by (simp add: get_objects_rejected)
  with assms(2) show ?thesis by simp
next
  case True
  from assms(2) obtain page where
    "collect (from_info self) (adjust marker limit page) = Inr objs"
    by (auto simp: get_objects_accepted [OF True] wrap_rs_errors_Inr split: sum.splits)
  then have "length objs = length (adjust marker limit page)"
    by (rule collect_length)
  with adjust_length [OF assms(1), of marker page] show ?thesis by simp
qed

theorem get_objects_page_size_witness:
  "(0 :: int) \<le> 1 \<and>
   snd (get_objects photos (fixed_listing [real_a, implied_a, b_txt]) [] None 1)
     = Inr [object_real_a] \<and>
   int (length [object_real_a]) \<le> 1"
proof -
  have r: "snd (get_objects photos (fixed_listing [real_a, implied_a, b_txt]) [] None 1)
     = Inr [object_real_a]"
    by code_simp
  from get_objects_page_size [OF _ r] r show ?thesis by simp
qed

subsection \<open>The marker\<close>

text \<open>C5. An accepted call asks the vendor for \<open>limit + 1\<close> entries, and when a marker is
  given (a string that is not empty) and the first entry of the page is a pseudo-directory
  entry whose name, stripped of separators, is the marker, the returned sequence is built
  from the rest of the page alone.\<close>
theorem get_objects_marker_entry_discarded:
  assumes "limit \<le> RS_MAX_GET_OBJS_LIMIT"
    and "m \<noteq> []"
    and "f \<lparr>rq_limit = limit + 1, rq_delimiter = SEP,
            rq_prefix = (if path = [] then [] else path @ SEP),
            rq_marker = Some m\<rparr> = Inr (first # rest)"
    and "i_subdir first = Some s"
    and "strip SEP s = m"
  shows "get_objects self f path (Some m) limit =
     ([\<lparr>rq_limit = limit + 1, rq_delimiter = SEP,
        rq_prefix = (if path = [] then [] else path @ SEP), rq_marker = Some m\<rparr>],
      wrap_rs_errors (collect (from_info self) (slice_to (collapse rest) limit)))"
  using assms(2-5)
  by (simp add: get_objects_accepted [OF assms(1)] adjust_def truthy_def)

theorem get_objects_marker_entry_discarded_witness:
  "(5 :: int) \<le> RS_MAX_GET_OBJS_LIMIT \<and> ''a'' \<noteq> [] \<and>
   fixed_listing [implied_a, b_txt]
     \<lparr>rq_limit = 5 + 1, rq_delimiter = SEP,
      rq_prefix = (if [] = [] then [] else [] @ SEP), rq_marker = Some ''a''\<rparr>
     = Inr (implied_a # [b_txt]) \<and>
   i_subdir implied_a = Some ''a/'' \<and> strip SEP ''a/'' = ''a'' \<and>
   get_objects photos (fixed_listing [implied_a, b_txt]) [] (Some ''a'') 5 =
     ([\<lparr>rq_limit = 6, rq_delimiter = ''/'', rq_prefix = [], rq_marker = Some ''a''\<rparr>],
      Inr [object_b_txt])"
proof -
  have h1: "(5 :: int) \<le> RS_MAX_GET_OBJS_LIMIT" by (simp add: RS_MAX_GET_OBJS_LIMIT_def)
  have h2: "''a'' \<noteq> []" by simp
  have h3: "fixed_listing [implied_a, b_txt]
     \<lparr>rq_limit = 5 + 1, rq_delimiter = SEP,
      rq_prefix = (if [] = [] then [] else [] @ SEP), rq_marker = Some ''a''\<rparr>
     = Inr (implied_a # [b_txt])"
    by (simp add: fixed_listing_def)
  have h4: "i_subdir implied_a = Some ''a/''" by (simp add: implied_a_def subdir_entry_def)
  have h5: "strip SEP ''a/'' = ''a''" by (simp add: strip_def SEP_def)
  have r: "wrap_rs_errors (collect (from_info photos) (slice_to (collapse [b_txt]) 5))
             = Inr [object_b_txt]"
    by code_simp
  from get_objects_marker_entry_discarded
         [where limit = 5 and m = "''a''" and f = "fixed_listing [implied_a, b_txt]"
            and path = "[]" and first = implied_a and rest = "[b_txt]" and s = "''a/''"
            and self = photos, OF h1 h2 h3 h4 h5]
       r h1 h2 h3 h4 h5
  show ?thesis by (simp add: SEP_def)
qed

subsection \<open>Translation of vendor exceptions\<close>

text \<open>C6. The vendor's exception for a missing container becomes a
  \<open>NoContainerException\<close>, the one for a missing object a \<open>NoObjectException\<close>, any
  other vendor exception a \<open>CloudException\<close>, each with the original message. So
  \<open>get_object\<close> on a path the vendor does not know fails with \<open>NoObjectException\<close>,
  fetching a container the vendor does not know fails with \<open>NoContainerException\<close>, and
  so does listing the objects of one.\<close>
theorem vendor_errors_translated:
  "translate (Vendor NoSuchContainer msg) = Cloud NoContainerException msg \<and>
   translate (Vendor NoSuchObject msg) = Cloud NoObjectException msg \<and>
   translate (Vendor OtherVendorError msg) = Cloud CloudException msg \<and>
   (native_get_object path = Inl (Vendor NoSuchObject msg) \<longrightarrow>
      get_object self native_get_object path = Inl (Cloud NoObjectException msg)) \<and>
   (native_get_container name = Inl (Vendor NoSuchContainer msg) \<longrightarrow>
      conn_get_container native_get_container name = Inl (Cloud NoContainerException msg)) \<and>
   (limit \<le> RS_MAX_GET_OBJS_LIMIT \<longrightarrow>
    f \<lparr>rq_limit = limit + 1, rq_delimiter = SEP,
       rq_prefix = (if prefix = [] then [] else prefix @ SEP), rq_marker = marker\<rparr>
      = Inl (Vendor NoSuchContainer msg) \<longrightarrow>
    snd (get_objects self f prefix marker limit) = Inl (Cloud NoContainerException msg))"
  by (simp add: wrap_rs_errors_def translate_def rs_translations_def get_object_def
      conn_get_container_def get_objects_accepted)

theorem vendor_errors_translated_witness:
  "missing_object ''missing/path'' = Inl (Vendor NoSuchObject ''missing/path'') \<and>
   get_object photos missing_object ''missing/path''
     = Inl (Cloud NoObjectException ''missing/path'') \<and>
   missing_container ''missing/path'' = Inl (Vendor NoSuchContainer ''missing/path'') \<and>
   conn_get_container missing_container ''missing/path''
     = Inl (Cloud NoContainerException ''missing/path'')"
proof -
  have h1: "missing_object ''missing/path'' = Inl (Vendor NoSuchObject ''missing/path'')"
    by (simp add: missing_object_def)
  have h2: "missing_container ''missing/path'' = Inl (Vendor NoSuchContainer ''missing/path'')"
    by (simp add: missing_container_def)
  from vendor_errors_translated
         [where msg = "''missing/path''" and native_get_object = missing_object
            and path = "''missing/path''" and self = photos
            and native_get_container = missing_container and name = "''missing/path''"]
       h1 h2
  show ?thesis by simp
qed

subsection \<open>Digits\<close>

lemma digit_cases: "0 \<le> d \<Longrightarrow> d \<le> 9 \<Longrightarrow> d \<in> {0, 1, 2, 3, 4, 5, 6, 7, 8, 9 :: int}"
  by simp arith

lemma digit_char_lower: "0 \<le> d \<Longrightarrow> d \<le> 9 \<Longrightarrow> lower (digit_char d) = digit_char d"
  by (drule (1) digit_cases) (auto simp: digit_char_def lower_def)

lemma digit_char_digit: "0 \<le> d \<Longrightarrow> d \<le> 9 \<Longrightarrow> digit_char d \<in> set digit"
  by (drule (1) digit_cases) (auto simp: digit_char_def digit_def)

lemma digit_char_not_space: "0 \<le> d \<Longrightarrow> d \<le> 9 \<Longrightarrow> \<not> is_space (digit_char d)"
  by (drule (1) digit_cases) (auto simp: digit_char_def is_space_def)

lemma digit_char_value: "0 \<le> d \<Longrightarrow> d \<le> 9 \<Longrightarrow> int (of_char (digit_char d)) - 48 = d"
  by (drule (1) digit_cases) (auto simp: digit_char_def)

lemma int_of_digits_two:
  assumes "0 \<le> a" "a \<le> 9" "0 \<le> b" "b \<le> 9"
  shows "int_of_digits [digit_char a, digit_char b] = 10 * a + b"
  using digit_char_value [OF assms(1,2)] digit_char_value [OF assms(3,4)]
    digit_char_not_space [OF assms(1,2)] digit_char_not_space [OF assms(3,4)]
  by (simp add: int_of_digits_def)

lemma int_of_digits_four:
  assumes "0 \<le> a" "a \<le> 9" "0 \<le> b" "b \<le> 9" "0 \<le> c" "c \<le> 9" "0 \<le> d" "d \<le> 9"
  shows "int_of_digits [digit_char a, digit_char b, digit_char c, digit_char d]
           = 1000 * a + 100 * b + 10 * c + d"
  using digit_char_value [OF assms(1,2)] digit_char_value [OF assms(3,4)]
    digit_char_value [OF assms(5,6)] digit_char_value [OF assms(7,8)]
    digit_char_not_space [OF assms(1,2)] digit_char_not_space [OF assms(3,4)]
    digit_char_not_space [OF assms(5,6)] digit_char_not_space [OF assms(7,8)]
  by (simp add: int_of_digits_def)

lemma two_digits_value:
  assumes "0 \<le> n" "n \<le> 99"
  shows "int_of_digits (two_digits n) = n"
proof -
  have "0 \<le> n div 10" "n div 10 \<le> 9" "0 \<le> n mod 10" "n mod 10 \<le> 9"
    using assms by simp_all
  from int_of_digits_two [OF this] show ?thesis
    by (simp add: two_digits_def)
qed

lemma regroup: "1000 * a + 100 * b + 10 * c + d = 100 * (10 * a + b) + (10 * c + d)"
  for a b c d :: int
  by simp

lemma four_digits_value:
  assumes "0 \<le> n" "n \<le> 9999"
  shows "int_of_digits (four_digits n) = n"
proof -
  let ?h = "n div 100" and ?l = "n mod 100"
  have h: "0 \<le> ?h" "?h \<le> 99" and l: "0 \<le> ?l" "?l \<le> 99"
    using assms by simp_all
  have "0 \<le> ?h div 10" "?h div 10 \<le> 9" "0 \<le> ?h mod 10" "?h mod 10 \<le> 9"
    "0 \<le> ?l div 10" "?l div 10 \<le> 9" "0 \<le> ?l mod 10" "?l mod 10 \<le> 9"
    using h l by simp_all
  from int_of_digits_four [OF this]
  have "int_of_digits (four_digits n)
      = 1000 * (?h div 10) + 100 * (?h mod 10) + 10 * (?l div 10) + ?l mod 10"
    by (simp add: four_digits_def two_digits_def)
  also have "\<dots> = 100 * (10 * (?h div 10) + ?h mod 10) + (10 * (?l div 10) + ?l mod 10)"
    by (rule regroup)
  also have "10 * (?h div 10) + ?h mod 10 = ?h"
    by (rule mult_div_mod_eq)
  also have "10 * (?l div 10) + ?l mod 10 = ?l"
    by (rule mult_div_mod_eq)
  also have "100 * ?h + ?l = n"
    by (rule mult_div_mod_eq)
  finally show ?thesis .
qed

subsection \<open>The first match of a directive\<close>

lemma take1_concat:
  "take (Suc 0) xs = [x] \<Longrightarrow> take (Suc 0) (f x) = [r] \<Longrightarrow> take (Suc 0) (concat (map f xs)) = [r]"
  by (cases xs; cases "f x") simp_all

lemma first_match_Cons:
  assumes "take (Suc 0) (step d t s) = [(t1, s1)]"
    and "take (Suc 0) (matches ds t1 s1) = [r]"
  shows "take (Suc 0) (matches (d # ds) t s) = [r]"
  using take1_concat [OF assms(1), of "\<lambda>(t', s'). matches ds t' s'" r] assms(2) by simp

lemma take1_head: "take (Suc 0) xs = [x] \<Longrightarrow> \<exists>ys. xs = x # ys"
  by (cases xs) simp_all

lemma step_Lit:
  "lower c' = lower c \<Longrightarrow> take (Suc 0) (step (Lit c) t (c' # s)) = [(t, s)]"
  by (simp add: step_def List.map_filter_simps)

lemma step_Spaces:
  "\<not> is_space c \<Longrightarrow> take (Suc 0) (step Spaces t (CHR '' '' # c # s)) = [(t, c # s)]"
  by (simp add: step_def is_space_def)

text \<open>An alternative that is not longer than the text before \<open>s\<close> does not look at \<open>s\<close>.\<close>

lemma match_seq_append:
  "length alt \<le> length xs \<Longrightarrow>
   match_seq alt (xs @ s) = map_option (\<lambda>(found, r). (found, r @ s)) (match_seq alt xs)"
  by (induction alt xs rule: match_seq.induct) (auto split: option.splits)

lemma map_filter_append:
  "\<forall>alt \<in> set alts. length alt \<le> length xs \<Longrightarrow>
   List.map_filter (\<lambda>alt. match_seq alt (xs @ s)) alts =
     map (\<lambda>(found, r). (found, r @ s)) (List.map_filter (\<lambda>alt. match_seq alt xs) alts)"
  by (induction alts) (auto simp: List.map_filter_simps match_seq_append split: option.splits)

lemma step_found:
  "d \<noteq> Spaces \<Longrightarrow>
   step d t s =
     map (\<lambda>(found, s'). (store d found t, s'))
       (List.map_filter (\<lambda>alt. match_seq alt s) (alternatives d))"
  by (cases d) (simp_all add: step_def List.map_filter_def comp_def split: option.splits prod.splits)

lemma step_first:
  assumes "d \<noteq> Spaces"
    and "\<forall>alt \<in> set (alternatives d). length alt \<le> length xs"
    and "take (Suc 0) (List.map_filter (\<lambda>alt. match_seq alt xs) (alternatives d)) = [(xs, [])]"
  shows "take (Suc 0) (step d t (xs @ s)) = [(store d xs t, s)]"
proof -
  have "take (Suc 0) (step d t (xs @ s)) =
      map (\<lambda>(found, s'). (store d found t, s'))
        (map (\<lambda>(found, r). (found, r @ s))
          (take (Suc 0) (List.map_filter (\<lambda>alt. match_seq alt xs) (alternatives d))))"
    by (simp only: step_found [OF assms(1)] map_filter_append [OF assms(2)] take_map)
  then show ?thesis
    by (simp add: assms(3))
qed

lemma found_Pctm:
  "\<forall>n \<in> set [1..12].
     take (Suc 0) (List.map_filter (\<lambda>alt. match_seq alt (two_digits n)) (alternatives Pctm))
       = [(two_digits n, [])]"
  by code_simp

lemma found_Pctd:
  "\<forall>n \<in> set [1..31].
     take (Suc 0) (List.map_filter (\<lambda>alt. match_seq alt (two_digits n)) (alternatives Pctd))
       = [(two_digits n, [])]"
  by code_simp

lemma found_PctH:
  "\<forall>n \<in> set [0..23].
     take (Suc 0) (List.map_filter (\<lambda>alt. match_seq alt (two_digits n)) (alternatives PctH))
       = [(two_digits n, [])]"
  by code_simp

lemma digit_char_0_5:
  "0 \<le> d \<Longrightarrow> d \<le> 5 \<Longrightarrow>
   lower (digit_char d) \<in> set ''012345'' \<and> lower (digit_char d) \<notin> set ''6''"
proof -
  assume "0 \<le> d" "d \<le> 5"
  then have "d \<in> {0, 1, 2, 3, 4, 5}" by simp arith
  then show ?thesis by (auto simp: digit_char_def lower_def)
qed

lemma digit_char_lower_digit:
  "0 \<le> d \<Longrightarrow> d \<le> 9 \<Longrightarrow> lower (digit_char d) \<in> set digit"
  by (simp add: digit_char_lower digit_char_digit)

lemma found_PctM:
  assumes "0 \<le> n" "n \<le> 59"
  shows "take (Suc 0) (List.map_filter (\<lambda>alt. match_seq alt (two_digits n)) (alternatives PctM))
       = [(two_digits n, [])]"
proof -
  have "0 \<le> n div 10" "n div 10 \<le> 5" "0 \<le> n mod 10" "n mod 10 \<le> 9"
    using assms by simp_all
  from digit_char_0_5 [OF this(1,2)] digit_char_lower_digit [OF this(3,4)]
  show ?thesis
    by (simp add: two_digits_def List.map_filter_simps)
qed

lemma found_PctS:
  assumes "0 \<le> n" "n \<le> 59"
  shows "take (Suc 0) (List.map_filter (\<lambda>alt. match_seq alt (two_digits n)) (alternatives PctS))
       = [(two_digits n, [])]"
proof -
  have "0 \<le> n div 10" "n div 10 \<le> 5" "0 \<le> n mod 10" "n mod 10 \<le> 9"
    using assms by simp_all
  from digit_char_0_5 [OF this(1,2)] digit_char_lower_digit [OF this(3,4)]
  show ?thesis
    by (simp add: two_digits_def List.map_filter_simps)
qed

lemma found_PctY:
  assumes "0 \<le> n" "n \<le> 9999"
  shows "take (Suc 0) (List.map_filter (\<lambda>alt. match_seq alt (four_digits n)) (alternatives PctY))
       = [(four_digits n, [])]"
proof -
  let ?h = "n div 100" and ?l = "n mod 100"
  have h: "0 \<le> ?h" "?h \<le> 99" and l: "0 \<le> ?l" "?l \<le> 99"
    using assms by simp_all
  have "0 \<le> ?h div 10" "?h div 10 \<le> 9" "0 \<le> ?h mod 10" "?h mod 10 \<le> 9"
    "0 \<le> ?l div 10" "?l div 10 \<le> 9" "0 \<le> ?l mod 10" "?l mod 10 \<le> 9"
    using h l by simp_all
  from digit_char_lower_digit [OF this(1,2)] digit_char_lower_digit [OF this(3,4)]
    digit_char_lower_digit [OF this(5,6)] digit_char_lower_digit [OF this(7,8)]
  show ?thesis
    by (simp add: four_digits_def two_digits_def List.map_filter_simps)
qed

lemma found_Pcta:
  "\<forall>wd \<in> set weekday_abbr.
     length wd = 3 \<and>
     take (Suc 0) (List.map_filter (\<lambda>alt. match_seq alt wd) (alternatives Pcta)) = [(wd, [])]"
  by code_simp

lemma found_Pctb:
  "\<forall>n \<in> set [1..12].
     length (month_abbr ! nat (n - 1)) = 3 \<and>
     index_of a_month (map lower (month_abbr ! nat (n - 1))) = n \<and>
     take (Suc 0)
       (List.map_filter (\<lambda>alt. match_seq alt (month_abbr ! nat (n - 1))) (alternatives Pctb))
       = [(month_abbr ! nat (n - 1), [])]"
  by code_simp

lemma month_first_letter:
  "\<forall>n \<in> set [1..12]. month_abbr ! nat (n - 1) \<noteq> [] \<and> \<not> is_space (hd (month_abbr ! nat (n - 1)))"
  by code_simp

lemma step_Spaces_before:
  assumes "s \<noteq> []" and "\<not> is_space (hd s)"
  shows "take (Suc 0) (step Spaces t (CHR '' '' # s)) = [(t, s)]"
proof -
  from assms obtain c cs where "s = c # cs" "\<not> is_space c"
    by (cases s) simp_all
  then show ?thesis
    by (simp add: step_Spaces)
qed

lemma two_digits_start:
  assumes "0 \<le> n" "n \<le> 99"
  shows "two_digits n @ s \<noteq> []" and "\<not> is_space (hd (two_digits n @ s))"
proof -
  have "0 \<le> n div 10" "n div 10 \<le> 9" using assms by simp_all
  from digit_char_not_space [OF this]
  show "two_digits n @ s \<noteq> []" and "\<not> is_space (hd (two_digits n @ s))"
    by (simp_all add: two_digits_def)
qed

lemma four_digits_start:
  assumes "0 \<le> n" "n \<le> 9999"
  shows "four_digits n @ s \<noteq> []" and "\<not> is_space (hd (four_digits n @ s))"
proof -
  have "0 \<le> n div 100" "n div 100 \<le> 99" using assms by simp_all
  from two_digits_start [OF this]
  show "four_digits n @ s \<noteq> []" and "\<not> is_space (hd (four_digits n @ s))"
    by (simp_all add: four_digits_def)
qed

lemma month_abbr_start:
  assumes "1 \<le> n" "n \<le> 12"
  shows "month_abbr ! nat (n - 1) @ s \<noteq> []"
    and "\<not> is_space (hd (month_abbr ! nat (n - 1) @ s))"
proof -
  from assms have "n \<in> set [1..12]" by simp
  with month_first_letter
  have "month_abbr ! nat (n - 1) \<noteq> [] \<and> \<not> is_space (hd (month_abbr ! nat (n - 1)))"
    by (rule bspec)
  then show "month_abbr ! nat (n - 1) @ s \<noteq> []"
    and "\<not> is_space (hd (month_abbr ! nat (n - 1) @ s))"
    by simp_all
qed

lemma step_PctY:
  assumes "0 \<le> n" "n \<le> 9999"
  shows "take (Suc 0) (step PctY t (four_digits n @ s)) = [(t\<lparr>year := n\<rparr>, s)]"
proof -
  note found = found_PctY [OF assms]
  have d: "PctY \<noteq> Spaces" by simp
  have len: "\<forall>alt \<in> set (alternatives PctY). length alt \<le> length (four_digits n)"
    by (simp add: four_digits_def two_digits_def)
  have val: "int_of_digits (four_digits n) = n"
    using assms by (intro four_digits_value) simp_all
  from step_first [OF d len found, of t s] show ?thesis
    by (simp only: store.simps val)
qed

lemma step_Pctm:
  assumes "1 \<le> n" "n \<le> 12"
  shows "take (Suc 0) (step Pctm t (two_digits n @ s)) = [(t\<lparr>month := n\<rparr>, s)]"
proof -
  from assms have "n \<in> set [1..12]" by simp
  with found_Pctm
  have found: "take (Suc 0) (List.map_filter (\<lambda>alt. match_seq alt (two_digits n)) (alternatives Pctm))
       = [(two_digits n, [])]"
    by (rule bspec)
  have d: "Pctm \<noteq> Spaces" by simp
  have len: "\<forall>alt \<in> set (alternatives Pctm). length alt \<le> length (two_digits n)"
    by (simp add: four_digits_def two_digits_def)
  have val: "int_of_digits (two_digits n) = n"
    using assms by (intro two_digits_value) simp_all
  from step_first [OF d len found, of t s] show ?thesis
    by (simp only: store.simps val)
qed

lemma step_Pctd:
  assumes "1 \<le> n" "n \<le> 31"
  shows "take (Suc 0) (step Pctd t (two_digits n @ s)) = [(t\<lparr>day := n\<rparr>, s)]"
proof -
  from assms have "n \<in> set [1..31]" by simp
  with found_Pctd
  have found: "take (Suc 0) (List.map_filter (\<lambda>alt. match_seq alt (two_digits n)) (alternatives Pctd))
       = [(two_digits n, [])]"
    by (rule bspec)
  have d: "Pctd \<noteq> Spaces" by simp
  have len: "\<forall>alt \<in> set (alternatives Pctd). length alt \<le> length (two_digits n)"
    by (simp add: four_digits_def two_digits_def)
  have val: "int_of_digits (two_digits n) = n"
    using assms by (intro two_digits_value) simp_all
  from step_first [OF d len found, of t s] show ?thesis
    by (simp only: store.simps val)
qed

lemma step_PctH:
  assumes "0 \<le> n" "n \<le> 23"
  shows "take (Suc 0) (step PctH t (two_digits n @ s)) = [(t\<lparr>hour := n\<rparr>, s)]"
proof -
  from assms have "n \<in> set [0..23]" by simp
  with found_PctH
  have found: "take (Suc 0) (List.map_filter (\<lambda>alt. match_seq alt (two_digits n)) (alternatives PctH))
       = [(two_digits n, [])]"
    by (rule bspec)
  have d: "PctH \<noteq> Spaces" by simp
  have len: "\<forall>alt \<in> set (alternatives PctH). length alt \<le> length (two_digits n)"
    by (simp add: four_digits_def two_digits_def)
  have val: "int_of_digits (two_digits n) = n"
    using assms by (intro two_digits_value) simp_all
  from step_first [OF d len found, of t s] show ?thesis
    by (simp only: store.simps val)
qed

lemma step_PctM:
  assumes "0 \<le> n" "n \<le> 59"
  shows "take (Suc 0) (step PctM t (two_digits n @ s)) = [(t\<lparr>minute := n\<rparr>, s)]"
proof -
  note found = found_PctM [OF assms]
  have d: "PctM \<noteq> Spaces" by simp
  have len: "\<forall>alt \<in> set (alternatives PctM). length alt \<le> length (two_digits n)"
    by (simp add: four_digits_def two_digits_def)
  have val: "int_of_digits (two_digits n) = n"
    using assms by (intro two_digits_value) simp_all
  from step_first [OF d len found, of t s] show ?thesis
    by (simp only: store.simps val)
qed

lemma step_PctS:
  assumes "0 \<le> n" "n \<le> 59"
  shows "take (Suc 0) (step PctS t (two_digits n @ s)) = [(t\<lparr>second := n\<rparr>, s)]"
proof -
  note found = found_PctS [OF assms]
  have d: "PctS \<noteq> Spaces" by simp
  have len: "\<forall>alt \<in> set (alternatives PctS). length alt \<le> length (two_digits n)"
    by (simp add: four_digits_def two_digits_def)
  have val: "int_of_digits (two_digits n) = n"
    using assms by (intro two_digits_value) simp_all
  from step_first [OF d len found, of t s] show ?thesis
    by (simp only: store.simps val)
qed

lemma step_Pcta:
  assumes "wd \<in> set weekday_abbr"
  shows "take (Suc 0) (step Pcta t (wd @ s)) = [(t, s)]"
proof -
  from found_Pcta assms
  have f: "length wd = 3 \<and>
     take (Suc 0) (List.map_filter (\<lambda>alt. match_seq alt wd) (alternatives Pcta)) = [(wd, [])]"
    by (rule bspec)
  have d: "Pcta \<noteq> Spaces" by simp
  have len: "\<forall>alt \<in> set (alternatives Pcta). length alt \<le> length wd"
    using f by (simp add: a_weekday_def word_alt_def)
  from step_first [OF d len conjunct2 [OF f], of t s] show ?thesis
    by (simp only: store.simps)
qed

lemma step_Pctb:
  assumes "1 \<le> n" "n \<le> 12"
  shows "take (Suc 0) (step Pctb t (month_abbr ! nat (n - 1) @ s)) = [(t\<lparr>month := n\<rparr>, s)]"
proof -
  from assms have "n \<in> set [1..12]" by simp
  with found_Pctb
  have f: "length (month_abbr ! nat (n - 1)) = 3 \<and>
     index_of a_month (map lower (month_abbr ! nat (n - 1))) = n \<and>
     take (Suc 0)
       (List.map_filter (\<lambda>alt. match_seq alt (month_abbr ! nat (n - 1))) (alternatives Pctb))
       = [(month_abbr ! nat (n - 1), [])]"
    by (rule bspec)
  have d: "Pctb \<noteq> Spaces" by simp
  have len: "\<forall>alt \<in> set (alternatives Pctb). length alt \<le> length (month_abbr ! nat (n - 1))"
    using f by (simp add: a_month_def word_alt_def)
  from f have idx: "index_of a_month (map lower (month_abbr ! nat (n - 1))) = n"
    by simp
  from f have "take (Suc 0)
       (List.map_filter (\<lambda>alt. match_seq alt (month_abbr ! nat (n - 1))) (alternatives Pctb))
       = [(month_abbr ! nat (n - 1), [])]"
    by simp
  from step_first [OF d len this, of t s] show ?thesis
    by (simp only: store.simps idx)
qed

subsection \<open>Parsing the two formats\<close>

lemma days_in_month_le: "days_in_month y m \<le> 31"
  by (simp add: days_in_month_def)

lemma valid_datetime_bounds:
  assumes "valid_datetime t"
  shows "0 \<le> year t" "year t \<le> 9999" "1 \<le> month t" "month t \<le> 12"
    "1 \<le> day t" "day t \<le> 31" "0 \<le> hour t" "hour t \<le> 23"
    "0 \<le> minute t" "minute t \<le> 59" "0 \<le> second t" "second t \<le> 59"
  using assms days_in_month_le [of "year t" "month t"]
  by (simp_all add: valid_datetime_def)

lemma matches_iso_timestamp:
  assumes "valid_datetime t"
  shows "take (Suc 0) (matches file_info_format u (iso_timestamp t)) =
     [(u\<lparr>year := year t, month := month t, day := day t,
         hour := hour t, minute := minute t, second := second t\<rparr>, [])]"
proof -
  note b = valid_datetime_bounds [OF assms]
  have str: "iso_timestamp t =
      four_digits (year t) @ CHR ''-'' # two_digits (month t) @ CHR ''-'' #
      two_digits (day t) @ CHR ''T'' # two_digits (hour t) @ CHR '':'' #
      two_digits (minute t) @ CHR '':'' # two_digits (second t) @ []"
    by (simp add: iso_timestamp_def)
  show ?thesis
    unfolding file_info_format_def str
    apply (rule first_match_Cons, rule step_PctY, rule b, rule b)
    apply (rule first_match_Cons, rule step_Lit, rule refl)
    apply (rule first_match_Cons, rule step_Pctm, rule b, rule b)
    apply (rule first_match_Cons, rule step_Lit, rule refl)
    apply (rule first_match_Cons, rule step_Pctd, rule b, rule b)
    apply (rule first_match_Cons, rule step_Lit, rule refl)
    apply (rule first_match_Cons, rule step_PctH, rule b, rule b)
    apply (rule first_match_Cons, rule step_Lit, rule refl)
    apply (rule first_match_Cons, rule step_PctM, rule b, rule b)
    apply (rule first_match_Cons, rule step_Lit, rule refl)
    apply (rule first_match_Cons, rule step_PctS, rule b, rule b)
    apply simp
    done
qed

lemma matches_rfc1123_timestamp:
  assumes "valid_datetime t" and "wd \<in> set weekday_abbr"
  shows "take (Suc 0) (matches obj_format u (rfc1123_timestamp wd t)) =
     [(u\<lparr>day := day t, month := month t, year := year t,
         hour := hour t, minute := minute t, second := second t\<rparr>, [])]"
proof -
  note b = valid_datetime_bounds [OF assms(1)]
  have d99: "0 \<le> day t" "day t \<le> 99" "0 \<le> hour t" "hour t \<le> 99"
    using b by simp_all
  have gmt: "''GMT'' \<noteq> []" "\<not> is_space (hd ''GMT'')"
    by (simp_all add: is_space_def)
  have str: "rfc1123_timestamp wd t =
      wd @ CHR '','' # CHR '' '' # two_digits (day t) @ CHR '' '' #
      month_abbr ! nat (month t - 1) @ CHR '' '' # four_digits (year t) @ CHR '' '' #
      two_digits (hour t) @ CHR '':'' # two_digits (minute t) @ CHR '':'' #
      two_digits (second t) @ CHR '' '' # ''GMT''"
    by (simp add: rfc1123_timestamp_def)
  show ?thesis
    unfolding obj_format_def str
    apply (rule first_match_Cons, rule step_Pcta, rule assms(2))
    apply (rule first_match_Cons, rule step_Lit, rule refl)
    apply (rule first_match_Cons, rule step_Spaces_before,
        rule two_digits_start [OF d99(1,2)], rule two_digits_start [OF d99(1,2)])
    apply (rule first_match_Cons, rule step_Pctd, rule b, rule b)
    apply (rule first_match_Cons, rule step_Spaces_before,
        rule month_abbr_start [OF b(3,4)], rule month_abbr_start [OF b(3,4)])
    apply (rule first_match_Cons, rule step_Pctb, rule b, rule b)
    apply (rule first_match_Cons, rule step_Spaces_before,
        rule four_digits_start [OF b(1,2)], rule four_digits_start [OF b(1,2)])
    apply (rule first_match_Cons, rule step_PctY, rule b, rule b)
    apply (rule first_match_Cons, rule step_Spaces_before,
        rule two_digits_start [OF d99(3,4)], rule two_digits_start [OF d99(3,4)])
    apply (rule first_match_Cons, rule step_PctH, rule b, rule b)
    apply (rule first_match_Cons, rule step_Lit, rule refl)
    apply (rule first_match_Cons, rule step_PctM, rule b, rule b)
    apply (rule first_match_Cons, rule step_Lit, rule refl)
    apply (rule first_match_Cons, rule step_PctS, rule b, rule b)
    apply (rule first_match_Cons, rule step_Spaces_before, rule gmt, rule gmt)
    apply (rule first_match_Cons, rule step_Lit, rule refl)
    apply (rule first_match_Cons, rule step_Lit, rule refl)
    apply (rule first_match_Cons, rule step_Lit, rule refl)
    apply simp
    done
qed

lemma strptime_first_match:
  assumes "take (Suc 0) (matches fmt
      \<lparr>year = 1900, month = 1, day = 1, hour = 0, minute = 0, second = 0\<rparr> s) = [(t, [])]"
    and "valid_datetime t"
  shows "strptime s fmt = Inr t"
proof -
  from take1_head [OF assms(1)] obtain ys where
    "matches fmt \<lparr>year = 1900, month = 1, day = 1, hour = 0, minute = 0, second = 0\<rparr> s
       = (t, []) # ys" ..
  with assms(2) show ?thesis
    by (simp add: strptime_def)
qed

lemma strptime_iso_timestamp:
  assumes "valid_datetime t"
  shows "strptime (iso_timestamp t) file_info_format = Inr t"
proof (rule strptime_first_match [OF _ assms])
  show "take (Suc 0) (matches file_info_format
      \<lparr>year = 1900, month = 1, day = 1, hour = 0, minute = 0, second = 0\<rparr> (iso_timestamp t))
      = [(t, [])]"
    by (simp add: matches_iso_timestamp [OF assms])
qed

lemma strptime_rfc1123_timestamp:
  assumes "valid_datetime t" and "wd \<in> set weekday_abbr"
  shows "strptime (rfc1123_timestamp wd t) obj_format = Inr t"
proof (rule strptime_first_match [OF _ assms(1)])
  show "take (Suc 0) (matches obj_format
      \<lparr>year = 1900, month = 1, day = 1, hour = 0, minute = 0, second = 0\<rparr>
      (rfc1123_timestamp wd t)) = [(t, [])]"
    by (simp add: matches_rfc1123_timestamp [OF assms])
qed

subsection \<open>Timestamps\<close>

lemma strptime_file_info_example:
  "strptime ''2010-04-15T01:52:13'' file_info_format = Inr apr_15_2010"
  by code_simp

lemma strptime_obj_example:
  "strptime ''Thu, 07 Jun 2007 18:57:07 GMT'' obj_format = Inr jun_07_2007"
  by code_simp

lemma partition_head_fraction:
  "sep \<notin> set s \<Longrightarrow> partition_head sep (s @ sep # frac) = s"
  by (induction s) (auto simp: partition_head_def)

lemma partition_head_whole: "sep \<notin> set s \<Longrightarrow> partition_head sep s = s"
  by (induction s) (auto simp: partition_head_def)

lemma digit_char_not_dot: "0 \<le> d \<Longrightarrow> d \<le> 9 \<Longrightarrow> digit_char d \<noteq> CHR ''.''"
  by (drule (1) digit_cases) (auto simp: digit_char_def)

lemma two_digits_no_dot:
  assumes "0 \<le> n" "n \<le> 99"
  shows "CHR ''.'' \<notin> set (two_digits n)"
proof -
  have "0 \<le> n div 10" "n div 10 \<le> 9" "0 \<le> n mod 10" "n mod 10 \<le> 9"
    using assms by simp_all
  from digit_char_not_dot [OF this(1,2)] digit_char_not_dot [OF this(3,4)]
  show ?thesis by (auto simp: two_digits_def)
qed

lemma four_digits_no_dot:
  assumes "0 \<le> n" "n \<le> 9999"
  shows "CHR ''.'' \<notin> set (four_digits n)"
proof -
  have "0 \<le> n div 100" "n div 100 \<le> 99" "0 \<le> n mod 100" "n mod 100 \<le> 99"
    using assms by simp_all
  from two_digits_no_dot [OF this(1,2)] two_digits_no_dot [OF this(3,4)]
  show ?thesis by (simp add: four_digits_def)
qed

lemma iso_timestamp_no_dot:
  assumes "valid_datetime t"
  shows "CHR ''.'' \<notin> set (iso_timestamp t)"
proof -
  note b = valid_datetime_bounds [OF assms]
  have "CHR ''.'' \<notin> set (four_digits (year t))"
    using b by (intro four_digits_no_dot) simp_all
  moreover have "CHR ''.'' \<notin> set (two_digits (month t))" "CHR ''.'' \<notin> set (two_digits (day t))"
    "CHR ''.'' \<notin> set (two_digits (hour t))" "CHR ''.'' \<notin> set (two_digits (minute t))"
    "CHR ''.'' \<notin> set (two_digits (second t))"
    using b by (simp_all add: two_digits_no_dot)
  ultimately show ?thesis
    by (simp add: iso_timestamp_def)
qed

text \<open>C7. \<open>from_file_info\<close> parses every timestamp of the form \<open>YYYY-MM-DDTHH:MM:SS\<close>
  of a valid instant to that instant, and to the same instant when a full stop and any
  fraction follow it; \<open>from_obj\<close> parses every timestamp of the form
  \<open>Www, DD Mon YYYY HH:MM:SS GMT\<close> of a valid instant to that instant, whatever the day
  name. In particular \<open>2010-04-15T01:52:13.919070\<close> gives the same object as
  \<open>2010-04-15T01:52:13\<close>, with the instant 2010-04-15 01:52:13, any text after the first
  full stop of a timestamp is ignored, and \<open>Thu, 07 Jun 2007 18:57:07 GMT\<close> gives the
  instant 2007-06-07 18:57:07.\<close>
theorem timestamps_parsed:
  "(valid_datetime t \<longrightarrow>
      from_file_info cont (file_entry n ct b (iso_timestamp t))
        = Inr \<lparr>o_container = cont, o_name = n, o_size = Some b, o_content_type = Some ct,
               o_last_modified = Some t, o_type = choose_type ct\<rparr> \<and>
      (\<forall>frac. from_file_info cont (file_entry n ct b (iso_timestamp t @ CHR ''.'' # frac))
        = Inr \<lparr>o_container = cont, o_name = n, o_size = Some b, o_content_type = Some ct,
               o_last_modified = Some t, o_type = choose_type ct\<rparr>) \<and>
      (\<forall>wd \<in> set weekday_abbr.
         from_obj cont \<lparr>f_name = n, f_size = b, f_content_type = ct,
                        f_last_modified = rfc1123_timestamp wd t\<rparr>
           = Inr \<lparr>o_container = cont, o_name = n, o_size = Some b, o_content_type = Some ct,
                  o_last_modified = Some t, o_type = choose_type ct\<rparr>)) \<and>
   from_file_info cont (file_entry n ct b ''2010-04-15T01:52:13.919070'')
     = from_file_info cont (file_entry n ct b ''2010-04-15T01:52:13'') \<and>
   from_file_info cont (file_entry n ct b ''2010-04-15T01:52:13'')
     = Inr \<lparr>o_container = cont, o_name = n, o_size = Some b, o_content_type = Some ct,
            o_last_modified = Some apr_15_2010, o_type = choose_type ct\<rparr> \<and>
   (\<forall>s frac. CHR ''.'' \<notin> set s \<longrightarrow>
      from_file_info cont (i\<lparr>i_last_modified := Some (s @ CHR ''.'' # frac)\<rparr>)
        = from_file_info cont (i\<lparr>i_last_modified := Some s\<rparr>)) \<and>
   from_obj cont \<lparr>f_name = n, f_size = b, f_content_type = ct,
                  f_last_modified = ''Thu, 07 Jun 2007 18:57:07 GMT''\<rparr>
     = Inr \<lparr>o_container = cont, o_name = n, o_size = Some b, o_content_type = Some ct,
            o_last_modified = Some jun_07_2007, o_type = choose_type ct\<rparr>"
proof -
  have dot: "CHR ''.'' \<notin> set ''2010-04-15T01:52:13''" by simp
  have cut: "partition_head CHR ''.'' ''2010-04-15T01:52:13.919070'' = ''2010-04-15T01:52:13''"
    using partition_head_fraction [OF dot, of "''919070''"] by simp
  have whole: "partition_head CHR ''.'' ''2010-04-15T01:52:13'' = ''2010-04-15T01:52:13''"
    using partition_head_whole [OF dot] .
  have a: "from_file_info cont (file_entry n ct b ''2010-04-15T01:52:13'')
     = Inr \<lparr>o_container = cont, o_name = n, o_size = Some b, o_content_type = Some ct,
            o_last_modified = Some apr_15_2010, o_type = choose_type ct\<rparr>"
    by (simp add: from_file_info_def file_entry_def item_def whole strptime_file_info_example)
  have b: "from_file_info cont (file_entry n ct b ''2010-04-15T01:52:13.919070'')
     = from_file_info cont (file_entry n ct b ''2010-04-15T01:52:13'')"
    by (simp add: from_file_info_def file_entry_def item_def whole cut
        strptime_file_info_example)
  have c: "from_file_info cont (i\<lparr>i_last_modified := Some (s @ CHR ''.'' # frac)\<rparr>)
        = from_file_info cont (i\<lparr>i_last_modified := Some s\<rparr>)"
    if "CHR ''.'' \<notin> set s" for s frac
    by (simp add: from_file_info_def item_def partition_head_fraction [OF that]
        partition_head_whole [OF that] split: option.splits sum.splits)
  have d: "from_obj cont \<lparr>f_name = n, f_size = b, f_content_type = ct,
                  f_last_modified = ''Thu, 07 Jun 2007 18:57:07 GMT''\<rparr>
     = Inr \<lparr>o_container = cont, o_name = n, o_size = Some b, o_content_type = Some ct,
            o_last_modified = Some jun_07_2007, o_type = choose_type ct\<rparr>"
    by (simp add: from_obj_def strptime_obj_example)
  have e: "from_file_info cont (file_entry n ct b (iso_timestamp t))
        = Inr \<lparr>o_container = cont, o_name = n, o_size = Some b, o_content_type = Some ct,
               o_last_modified = Some t, o_type = choose_type ct\<rparr>"
    if "valid_datetime t"
    by (simp add: from_file_info_def file_entry_def item_def
        partition_head_whole [OF iso_timestamp_no_dot [OF that]]
        strptime_iso_timestamp [OF that])
  have f: "from_file_info cont (file_entry n ct b (iso_timestamp t @ CHR ''.'' # frac))
        = Inr \<lparr>o_container = cont, o_name = n, o_size = Some b, o_content_type = Some ct,
               o_last_modified = Some t, o_type = choose_type ct\<rparr>"
    if "valid_datetime t" for frac
    by (simp add: from_file_info_def file_entry_def item_def
        partition_head_fraction [OF iso_timestamp_no_dot [OF that]]
        strptime_iso_timestamp [OF that])
  have g: "from_obj cont \<lparr>f_name = n, f_size = b, f_content_type = ct,
                        f_last_modified = rfc1123_timestamp wd t\<rparr>
           = Inr \<lparr>o_container = cont, o_name = n, o_size = Some b, o_content_type = Some ct,
                  o_last_modified = Some t, o_type = choose_type ct\<rparr>"
    if "valid_datetime t" "wd \<in> set weekday_abbr" for wd
    by (simp add: from_obj_def strptime_rfc1123_timestamp [OF that])
  from a b c d e f g show ?thesis by blast
qed

theorem timestamps_parsed_witness:
  "valid_datetime apr_15_2010 \<and>
   iso_timestamp apr_15_2010 = ''2010-04-15T01:52:13'' \<and>
   from_file_info photos (file_entry ''b.txt'' ''text/plain'' 5 ''2010-04-15T01:52:13'')
     = Inr (object_b_txt\<lparr>o_last_modified := Some apr_15_2010\<rparr>) \<and>
   from_file_info photos (file_entry ''b.txt'' ''text/plain'' 5 ''2010-04-15T01:52:13.919070'')
     = Inr (object_b_txt\<lparr>o_last_modified := Some apr_15_2010\<rparr>) \<and>
   valid_datetime jun_07_2007 \<and> ''Thu'' \<in> set weekday_abbr \<and>
   rfc1123_timestamp ''Thu'' jun_07_2007 = ''Thu, 07 Jun 2007 18:57:07 GMT'' \<and>
   from_obj photos \<lparr>f_name = ''b.txt'', f_size = 5, f_content_type = ''text/plain'',
                    f_last_modified = ''Thu, 07 Jun 2007 18:57:07 GMT''\<rparr>
     = Inr (object_b_txt\<lparr>o_last_modified := Some jun_07_2007\<rparr>) \<and>
   CHR ''.'' \<notin> set ''2020-01-01T00:00:00'' \<and>
   from_file_info photos (file_entry ''b.txt'' ''text/plain'' 5 ''2020-01-01T00:00:00.25'')
     = from_file_info photos (file_entry ''b.txt'' ''text/plain'' 5 ''2020-01-01T00:00:00'')"
proof -
  have v1: "valid_datetime apr_15_2010" by code_simp
  have v2: "valid_datetime jun_07_2007" by code_simp
  have s1: "iso_timestamp apr_15_2010 = ''2010-04-15T01:52:13''" by code_simp
  have s2: "rfc1123_timestamp ''Thu'' jun_07_2007 = ''Thu, 07 Jun 2007 18:57:07 GMT''"
    by code_simp
  have s3: "iso_timestamp apr_15_2010 @ CHR ''.'' # ''919070'' = ''2010-04-15T01:52:13.919070''"
    by (simp add: s1)
  have w: "''Thu'' \<in> set weekday_abbr" by (simp add: weekday_abbr_def)
  have h: "CHR ''.'' \<notin> set ''2020-01-01T00:00:00''" by simp
  have ob: "\<lparr>o_container = photos, o_name = ''b.txt'', o_size = Some 5,
      o_content_type = Some ''text/plain'', o_last_modified = Some x,
      o_type = choose_type ''text/plain''\<rparr> = object_b_txt\<lparr>o_last_modified := Some x\<rparr>" for x
    by (simp add: object_b_txt_def choose_type_def)
  note i1 = timestamps_parsed [where t = apr_15_2010 and cont = photos and n = "''b.txt''"
      and ct = "''text/plain''" and b = 5
      and i = "file_entry ''b.txt'' ''text/plain'' 5 []"]
  note i2 = timestamps_parsed [where t = jun_07_2007 and cont = photos and n = "''b.txt''"
      and ct = "''text/plain''" and b = 5]
  from i1 v1 have r1: "from_file_info photos (file_entry ''b.txt'' ''text/plain'' 5
        (iso_timestamp apr_15_2010))
     = Inr (object_b_txt\<lparr>o_last_modified := Some apr_15_2010\<rparr>)"
    unfolding ob by blast
  from i1 v1 have r2: "from_file_info photos (file_entry ''b.txt'' ''text/plain'' 5
        (iso_timestamp apr_15_2010 @ CHR ''.'' # ''919070''))
     = Inr (object_b_txt\<lparr>o_last_modified := Some apr_15_2010\<rparr>)"
    unfolding ob by blast
  from i2 v2 w have r3: "from_obj photos \<lparr>f_name = ''b.txt'', f_size = 5,
        f_content_type = ''text/plain'',
        f_last_modified = rfc1123_timestamp ''Thu'' jun_07_2007\<rparr>
     = Inr (object_b_txt\<lparr>o_last_modified := Some jun_07_2007\<rparr>)"
    unfolding ob by blast
  from i1 h have "from_file_info photos
          ((file_entry ''b.txt'' ''text/plain'' 5 [])
             \<lparr>i_last_modified := Some (''2020-01-01T00:00:00'' @ CHR ''.'' # ''25'')\<rparr>)
        = from_file_info photos
          ((file_entry ''b.txt'' ''text/plain'' 5 [])
             \<lparr>i_last_modified := Some ''2020-01-01T00:00:00''\<rparr>)"
    by blast
  then have r4: "from_file_info photos
        (file_entry ''b.txt'' ''text/plain'' 5 ''2020-01-01T00:00:00.25'')
     = from_file_info photos (file_entry ''b.txt'' ''text/plain'' 5 ''2020-01-01T00:00:00'')"
    by (simp add: file_entry_def)
  from r1 have r1': "from_file_info photos
        (file_entry ''b.txt'' ''text/plain'' 5 ''2010-04-15T01:52:13'')
     = Inr (object_b_txt\<lparr>o_last_modified := Some apr_15_2010\<rparr>)"
    by (simp only: s1)
  from r2 have r2': "from_file_info photos
        (file_entry ''b.txt'' ''text/plain'' 5 ''2010-04-15T01:52:13.919070'')
     = Inr (object_b_txt\<lparr>o_last_modified := Some apr_15_2010\<rparr>)"
    by (simp only: s3)
  from r3 have r3': "from_obj photos \<lparr>f_name = ''b.txt'', f_size = 5,
        f_content_type = ''text/plain'',
        f_last_modified = ''Thu, 07 Jun 2007 18:57:07 GMT''\<rparr>
     = Inr (object_b_txt\<lparr>o_last_modified := Some jun_07_2007\<rparr>)"
    by (simp only: s2)
  from v1 v2 s1 s2 w h r1' r2' r3' r4 show ?thesis by blast
qed

subsection \<open>The scenario of the specification\<close>

text \<open>C2, as the specification states it, fails: in the page given, the implied entry
  \<open>a/\<close> comes before the real entry \<open>a\<close>, no name has been seen when it is read, and
  it is kept; the truncation to two entries then cuts \<open>b.txt\<close>.\<close>

theorem scenario_implied_entry_first:
  "adjust None 2 [implied_a, real_a, b_txt] = [implied_a, real_a] \<and>
   snd (get_objects photos (fixed_listing [implied_a, real_a, b_txt]) [] None 2)
     = Inr [object_implied_a, object_real_a] \<and>
   [object_implied_a, object_real_a] \<noteq> [object_real_a, object_b_txt]"
  by code_simp

text \<open>C2, amended. With limit 2 and no marker, the page of the scenario gives the two
  objects built from the implied entry \<open>a/\<close> and from the real entry \<open>a\<close>, both of
  type \<open>SUBDIR\<close>; the page with the real entry \<open>a\<close> before the implied entry
  \<open>a/\<close> gives the objects \<open>a\<close> (\<open>SUBDIR\<close>) and \<open>b.txt\<close> (\<open>FILE\<close>), the implied
  entry being dropped.\<close>

theorem scenario_results:
  "get_objects photos (fixed_listing [implied_a, real_a, b_txt]) [] None 2
     = ([\<lparr>rq_limit = 3, rq_delimiter = ''/'', rq_prefix = [], rq_marker = None\<rparr>],
        Inr [object_implied_a, object_real_a]) \<and>
   get_objects photos (fixed_listing [real_a, implied_a, b_txt]) [] None 2
     = ([\<lparr>rq_limit = 3, rq_delimiter = ''/'', rq_prefix = [], rq_marker = None\<rparr>],
        Inr [object_real_a, object_b_txt])"
  by code_simp

theorem scenario_results_witness:
  "map o_name [object_implied_a, object_real_a] = [''a/'', ''a''] \<and>
   map o_type [object_implied_a, object_real_a] = [SUBDIR, SUBDIR] \<and>
   snd (get_objects photos (fixed_listing [real_a, implied_a, b_txt]) [] None 2)
     = Inr [object_real_a, object_b_txt] \<and>
   map o_name [object_real_a, object_b_txt] = [''a'', ''b.txt''] \<and>
   map o_type [object_real_a, object_b_txt] = [SUBDIR, FILE]"
  using scenario_results
  by (simp add: object_implied_a_def object_real_a_def object_b_txt_def)

subsection \<open>Collapsing\<close>

lemma collapse_from_append:
  "collapse_from name (xs @ ys) = collapse_from name xs @ collapse_from (name_after name xs) ys"
  by (induction xs arbitrary: name) (simp_all add: Let_def)

lemma name_after_append:
  "name_after name (xs @ ys) = name_after (name_after name xs) ys"
  by (induction xs arbitrary: name) simp_all

lemma name_after_unnamed:
  "\<forall>e \<in> set xs. i_name e = None \<Longrightarrow> name_after name xs = name"
  by (induction xs arbitrary: name) simp_all

lemma collapse_from_unseen:
  "\<forall>e \<in> set xs. i_name e = None \<Longrightarrow> collapse_from None xs = xs"
  by (induction xs) (simp_all add: Let_def truthy_def)










lemma collapse_named_then_implied:
  assumes "i_name named = Some N" and "N \<noteq> []"
    and "\<forall>e \<in> set between. i_name e = None"
    and "i_name p = None" and "i_subdir p = Some s" and "strip SEP s = N"
  shows "collapse (pre @ named # between @ p # post) =
           collapse (pre @ named # between) @ collapse_from (Some N) post"
proof -
  have after: "name_after None (pre @ named # between) = Some N"
    using assms(1,3) by (simp add: name_after_append name_after_unnamed)
  have "collapse (pre @ named # between @ p # post)
      = collapse_from None ((pre @ named # between) @ p # post)"
    by (simp add: collapse_def)
  also have "\<dots> = collapse_from None (pre @ named # between) @ collapse_from (Some N) (p # post)"
    by (simp only: collapse_from_append after)
  also have "collapse_from (Some N) (p # post) = collapse_from (Some N) post"
    using assms(2,4,5,6) by (simp add: Let_def truthy_def)
  finally show ?thesis by (simp add: collapse_def)
qed





text \<open>C10. The pair need not be adjacent and the content type plays no part: after an
  entry named \<open>N\<close> (not empty), followed by any number of entries without a name, an
  implied entry whose stripped name is \<open>N\<close> is dropped, and the name stays \<open>N\<close> for
  the entries after it. Entries read before any name has been seen are all kept.\<close>
theorem collapse_tracks_latest_name:
  "(i_name named = Some N \<and> N \<noteq> [] \<and> (\<forall>e \<in> set between. i_name e = None) \<and>
    i_name p = None \<and> i_subdir p = Some s \<and> strip SEP s = N \<longrightarrow>
      collapse (pre @ named # between @ p # post) =
        collapse (pre @ named # between) @ collapse_from (Some N) post) \<and>
   ((\<forall>e \<in> set unnamed. i_name e = None) \<longrightarrow>
      collapse (unnamed @ rest) = unnamed @ collapse rest)"
proof -
  have "collapse (unnamed @ rest) = unnamed @ collapse rest"
    if "\<forall>e \<in> set unnamed. i_name e = None"
    using that
    by (simp add: collapse_def collapse_from_append collapse_from_unseen name_after_unnamed)
  with collapse_named_then_implied [of named N between p s pre post] show ?thesis
    by blast
qed

theorem collapse_tracks_latest_name_witness:
  "i_name plain_a = Some ''a'' \<and> ''a'' \<noteq> [] \<and> i_content_type plain_a = Some ''text/plain'' \<and>
   set (map i_name [implied_x]) = {None} \<and>
   i_name implied_a = None \<and> i_subdir implied_a = Some ''a/'' \<and> strip SEP ''a/'' = ''a'' \<and>
   collapse ([implied_a] @ plain_a # [implied_x] @ implied_a # [b_txt])
     = [implied_a, plain_a, implied_x, b_txt] \<and>
   set (map i_name [implied_x, implied_a]) = {None} \<and>
   collapse ([implied_x, implied_a] @ [plain_a, implied_a])
     = [implied_x, implied_a] @ [plain_a]"
proof -
  have h: "i_name plain_a = Some ''a'' \<and> ''a'' \<noteq> [] \<and>
     i_content_type plain_a = Some ''text/plain'' \<and>
     i_name implied_a = None \<and> i_subdir implied_a = Some ''a/'' \<and> strip SEP ''a/'' = ''a''"
    by (simp add: plain_a_def implied_a_def file_entry_def subdir_entry_def strip_def SEP_def)
  have b: "\<forall>e \<in> set [implied_x]. i_name e = None"
    by (simp add: implied_x_def subdir_entry_def)
  have u: "\<forall>e \<in> set [implied_x, implied_a]. i_name e = None"
    by (simp add: implied_x_def implied_a_def subdir_entry_def)
  have r1: "collapse ([implied_a] @ plain_a # [implied_x]) @ collapse_from (Some ''a'') [b_txt]
      = [implied_a, plain_a, implied_x, b_txt]"
    by code_simp
  have r2: "collapse [plain_a, implied_a] = [plain_a]"
    by code_simp
  note inst = collapse_tracks_latest_name
    [where named = plain_a and N = "''a''" and between = "[implied_x]" and p = implied_a
       and s = "''a/''" and pre = "[implied_a]" and post = "[b_txt]"
       and unnamed = "[implied_x, implied_a]" and rest = "[plain_a, implied_a]"]
  from inst have "i_name plain_a = Some ''a'' \<and> ''a'' \<noteq> [] \<and>
      (\<forall>e \<in> set [implied_x]. i_name e = None) \<and>
      i_name implied_a = None \<and> i_subdir implied_a = Some ''a/'' \<and> strip SEP ''a/'' = ''a'' \<longrightarrow>
      collapse ([implied_a] @ plain_a # [implied_x] @ implied_a # [b_txt]) =
        collapse ([implied_a] @ plain_a # [implied_x]) @ collapse_from (Some ''a'') [b_txt]"
    by (rule conjunct1)
  moreover from h b have "i_name plain_a = Some ''a'' \<and> ''a'' \<noteq> [] \<and>
      (\<forall>e \<in> set [implied_x]. i_name e = None) \<and>
      i_name implied_a = None \<and> i_subdir implied_a = Some ''a/'' \<and> strip SEP ''a/'' = ''a''"
    by blast
  ultimately have "collapse ([implied_a] @ plain_a # [implied_x] @ implied_a # [b_txt]) =
        collapse ([implied_a] @ plain_a # [implied_x]) @ collapse_from (Some ''a'') [b_txt]"
    by (rule mp)
  then have c1: "collapse ([implied_a] @ plain_a # [implied_x] @ implied_a # [b_txt])
     = [implied_a, plain_a, implied_x, b_txt]"
    by (simp only: r1)
  from inst have "(\<forall>e \<in> set [implied_x, implied_a]. i_name e = None) \<longrightarrow>
      collapse ([implied_x, implied_a] @ [plain_a, implied_a])
        = [implied_x, implied_a] @ collapse [plain_a, implied_a]"
    by (rule conjunct2)
  from this u have "collapse ([implied_x, implied_a] @ [plain_a, implied_a])
        = [implied_x, implied_a] @ collapse [plain_a, implied_a]"
    by (rule mp)
  then have c2: "collapse ([implied_x, implied_a] @ [plain_a, implied_a])
     = [implied_x, implied_a] @ [plain_a]"
    by (simp only: r2)
  from b have s1: "set (map i_name [implied_x]) = {None}" by simp
  from u have s2: "set (map i_name [implied_x, implied_a]) = {None}" by simp
  from h c1 c2 s1 s2 show ?thesis by blast
qed

end
